theory Spec2Isabelle
  imports Complex_Main "HOL-Library.Log_Nat"
begin

section \<open>The slideshow pipeline of create\_video\_ui.py\<close>

text \<open>
  The pipeline functions of the source (\<open>get_exif_data\<close>, \<open>process_image\<close>,
  \<open>get_audio_duration\<close>, \<open>process_audio_for_video\<close>, \<open>is_encoder_available\<close> and
  \<open>create_video\<close>) are embedded as HOL functions.  Every external process is an oracle
  call: the environment maps the sequence number of the invocation and the invocation
  itself to its outcome, so the same tool may answer differently each time it is run.
  Exceptions are values of a sum type, the scratch directory, the progress callbacks and
  the printed lines are fields of an explicit state.
\<close>

subsection \<open>Exceptions and subprocess outcomes\<close>

datatype exn =
    FileNotFoundError
  | CalledProcessError
  | TimeoutExpired
  | KeyError
  | JSONDecodeError
  | ValueError
  | TypeError
  | IndexError
  | ZeroDivisionError
  | UnboundLocalError
  | OtherError

text \<open>
  \<open>subprocess.run\<close> either raises (the binary is missing, the timeout expires, the
  output cannot be decoded) or completes with a return code and the captured standard
  output.
\<close>

datatype proc =
    Raised exn
  | Completed int string

subsection \<open>Python string operations\<close>

text \<open>\<open>str.isspace\<close> on the code points below 256.\<close>

definition py_isspace :: "char \<Rightarrow> bool" where
  "py_isspace c = (of_char c \<in> {9, 10, 11, 12, 13, 28, 29, 30, 31, 32, 133, 160 :: nat})"

definition strip :: "string \<Rightarrow> string" where
  "strip s = rev (dropWhile py_isspace (rev (dropWhile py_isspace s)))"

text \<open>\<open>s.split(c)\<close> for a separator of one character: never the empty list.\<close>

fun split_on :: "char \<Rightarrow> string \<Rightarrow> string list" where
  "split_on c [] = [[]]"
| "split_on c (x # xs) =
     (if x = c then [] # split_on c xs
      else (case split_on c xs of
              [] \<Rightarrow> [[x]]
            | y # ys \<Rightarrow> (x # y) # ys))"

text \<open>\<open>s.replace(' ', '')\<close>.\<close>

definition remove_spaces :: "string \<Rightarrow> string" where
  "remove_spaces s = filter (\<lambda>c. c \<noteq> CHR '' '') s"

text \<open>
  \<open>int(s)\<close> on a string: surrounding whitespace is stripped, one sign is allowed, then
  decimal digits, where single underscores may separate digits.  \<open>None\<close> is the
  \<open>ValueError\<close>.
\<close>

definition is_digit :: "char \<Rightarrow> bool" where
  "is_digit c = (48 \<le> (of_char c :: nat) \<and> (of_char c :: nat) \<le> 57)"

definition digit_val :: "char \<Rightarrow> int" where
  "digit_val c = int (of_char c :: nat) - 48"

fun digits_ok :: "string \<Rightarrow> bool" where
  "digits_ok [] = False"
| "digits_ok [c] = is_digit c"
| "digits_ok (c # d # cs) =
     (is_digit c \<and> (if d = CHR ''_'' then digits_ok cs else digits_ok (d # cs)))"

definition digits_value :: "string \<Rightarrow> int" where
  "digits_value s = foldl (\<lambda>acc c. 10 * acc + digit_val c) 0 (filter is_digit s)"

definition int_of_str :: "string \<Rightarrow> int option" where
  "int_of_str s =
     (case strip s of
        [] \<Rightarrow> None
      | c # cs \<Rightarrow>
          if c = CHR ''-'' then (if digits_ok cs then Some (- digits_value cs) else None)
          else if c = CHR ''+'' then (if digits_ok cs then Some (digits_value cs) else None)
          else (if digits_ok (c # cs) then Some (digits_value (c # cs)) else None))"

text \<open>\<open>needle in haystack\<close> on strings.\<close>

fun contains :: "string \<Rightarrow> string \<Rightarrow> bool" where
  "contains needle [] = (needle = [])"
| "contains needle (h # hs) = (take (length needle) (h # hs) = needle \<or> contains needle hs)"

subsection \<open>Python floats\<close>

text \<open>
  A finite float is the rational number it denotes.  Every arithmetic operation computes
  the exact result and rounds it to the nearest number with a significand of 53 bits,
  ties to the even significand (IEEE 754 binary64; the exponent range is not modelled, so
  overflow, subnormal numbers, infinities and NaN are outside the model).
\<close>

definition flog2 :: "rat \<Rightarrow> int" where
  "flog2 x =
     (let e = bitlen (fst (quotient_of x)) - bitlen (snd (quotient_of x))
      in if 2 powi e \<le> x then e else e - 1)"

definition round_half_even :: "rat \<Rightarrow> int" where
  "round_half_even y =
     (let f = \<lfloor>y\<rfloor>; r = y - of_int f
      in if r < 1 / 2 then f
         else if 1 / 2 < r then f + 1
         else if even f then f else f + 1)"

definition b64 :: "rat \<Rightarrow> rat" where
  "b64 x =
     (if x = 0 then 0
      else (let u = 2 powi (flog2 \<bar>x\<bar> - 52)
            in of_int (round_half_even (x / u)) * u))"

text \<open>\<open>float(n)\<close> of an integer, and the float operations the source uses.\<close>

definition float_of_int :: "int \<Rightarrow> rat" where
  "float_of_int n = b64 (of_int n)"

definition fmul :: "rat \<Rightarrow> rat \<Rightarrow> rat" where
  "fmul a b = b64 (a * b)"

definition fdiv :: "rat \<Rightarrow> rat \<Rightarrow> rat" where
  "fdiv a b = b64 (a / b)"

text \<open>\<open>n / m\<close> on two integers: the quotient, correctly rounded.\<close>

definition int_truediv :: "int \<Rightarrow> int \<Rightarrow> rat" where
  "int_truediv n m = b64 (of_int n / of_int m)"

text \<open>\<open>int(x)\<close> on a float truncates toward zero; \<open>math.ceil\<close> is the ceiling.\<close>

definition py_int :: "rat \<Rightarrow> int" where
  "py_int x = (if 0 \<le> x then \<lfloor>x\<rfloor> else \<lceil>x\<rceil>)"

definition py_ceil :: "rat \<Rightarrow> int" where
  "py_ceil x = \<lceil>x\<rceil>"

text \<open>The literals \<open>0.2\<close> and \<open>0.025\<close> as binary64 numbers.\<close>

definition c_0_2 :: rat where
  "c_0_2 = 3602879701896397 / 2 ^ 54"

definition c_0_025 :: rat where
  "c_0_025 = 3602879701896397 / 2 ^ 57"

subsection \<open>Frame geometry (process\_image, the lines after the dimension probe)\<close>

record frame_spec =
  bg_width :: int
  bg_height :: int
  info_height :: int
  total_height :: int
  font_size :: int

definition frame_geometry :: "int \<Rightarrow> frame_spec" where
  "frame_geometry width =
     (let bg_height = py_int (int_truediv (width * 9) 16);
          bg_width = width;
          info_height = py_int (fmul (float_of_int bg_height) c_0_2);
          total_height = bg_height + info_height;
          font_size = max 40 (py_int (fmul (float_of_int total_height) c_0_025))
      in \<lparr> bg_width = bg_width, bg_height = bg_height, info_height = info_height,
           total_height = total_height, font_size = font_size \<rparr>)"

subsection \<open>External tools, the environment and the state of a run\<close>

text \<open>The arguments of the final mux command that vary from run to run.\<close>

record mux_cmd =
  framerate :: rat
  frames_pattern :: string
  audio_input :: "string option"
  video_codec :: string
  pix_fmt :: string
  bitrate :: string
  output_file :: string

text \<open>
  One constructor for each command line the source builds: the metadata tool, the
  dimension probe, the per-image compositing command (input, output, geometry, caption),
  the audio duration probe, the audio conditioning command (\<open>-stream_loop\<close>, input,
  \<open>-t\<close>, output), the codec listing and the mux.
\<close>

datatype invocation =
    Exiftool string
  | Ffprobe_dimensions string
  | Ffmpeg_compose string string frame_spec string
  | Ffprobe_duration string
  | Ffmpeg_audio int string rat string
  | Ffmpeg_codecs
  | Ffmpeg_mux mux_cmd

text \<open>
  The mux runs under \<open>subprocess.Popen\<close>: the source reads its output line by line and
  polls the process once for every line (when a callback is there).  An outcome lists,
  for each line read, whether the process was still running at that poll, and ends with
  an exception or with the exit code.
\<close>

datatype popen_result =
    PopenRaised "bool list" exn
  | PopenExited "bool list" int

text \<open>
  The environment: the oracle for \<open>subprocess.run\<close> and the one for \<open>Popen\<close>, both indexed
  by the number of invocations made so far; the directory \<open>tempfile.mkdtemp\<close> returns;
  today's date as \<open>strftime('%Y-%m-%d')\<close> prints it; and
  \<open>float(json.loads(out)['format']['duration'])\<close> as a function of the probe's output,
  which raises \<open>JSONDecodeError\<close>, \<open>KeyError\<close>, \<open>TypeError\<close> or \<open>ValueError\<close> or yields
  a float.
\<close>

record env =
  tool :: "nat \<Rightarrow> invocation \<Rightarrow> proc"
  popen :: "nat \<Rightarrow> mux_cmd \<Rightarrow> popen_result"
  mkdtemp :: string
  today :: string
  json_duration :: "string \<Rightarrow> exn + rat"

text \<open>The lines the source prints, one constructor for each \<open>print\<close>.\<close>

datatype msg =
    ErrorDimensions string
  | TimeoutDimensions string
  | InvalidDimensionData string string
  | InvalidDimensionValues string "string list"
  | ImageTimedOut string
  | ErrorProcessingImage string string
  | TimeoutAudioDuration string
  | WarnNoDuration string
  | AudioTimedOut string
  | ErrorProcessingAudio string
  | TimedOutCodecs
  | ProcessingImages nat
  | Processed nat nat string
  | Skipping string
  | NoValidImages
  | ProcessingMusic
  | WithoutAudio
  | UsingLibx264
  | UsingH264
  | CreatingVideo
  | ExecutingCommand mux_cmd
  | VideoCreationError exn
  | ErrorCreatingVideo int
  | Success string
  | VideoDuration rat
  | NumberOfImages nat

text \<open>
  The state a run acts on: the external commands run so far, the progress callbacks
  made so far as triples \<open>(current, total, phase)\<close>, the lines printed so far and the
  directories that exist.
\<close>

record state =
  trace :: "invocation list"
  calls :: "(rat \<times> rat \<times> string) list"
  log :: "msg list"
  dirs :: "string set"

definition run :: "env \<Rightarrow> invocation \<Rightarrow> state \<Rightarrow> proc \<times> state" where
  "run e c s = (tool e (length (trace s)) c, s\<lparr>trace := trace s @ [c]\<rparr>)"

definition say :: "msg \<Rightarrow> state \<Rightarrow> state" where
  "say m s = s\<lparr>log := log s @ [m]\<rparr>"

text \<open>\<open>if progress_callback: progress_callback(current, total, phase)\<close>.\<close>

definition notify :: "bool \<Rightarrow> rat \<times> rat \<times> string \<Rightarrow> state \<Rightarrow> state" where
  "notify cb c s = (if cb then s\<lparr>calls := calls s @ [c]\<rparr> else s)"

text \<open>\<open>os.path.join\<close> of a directory without trailing separator and a relative name.\<close>

definition path_join :: "string \<Rightarrow> string \<Rightarrow> string" where
  "path_join d f = d @ ''/'' @ f"

subsection \<open>get\_exif\_data\<close>

type_synonym exif = "string \<rightharpoonup> string"

text \<open>
  \<open>lines[k].replace(' ', '').split(':')[1] if len(lines) > k else 'N/A'\<close>: the index 1
  raises \<open>IndexError\<close> on a line without colon.
\<close>

definition exif_field :: "string list \<Rightarrow> nat \<Rightarrow> exn + string" where
  "exif_field lines k =
     (if k < length lines then
        (case split_on CHR '':'' (remove_spaces (lines ! k)) of
           _ # v # _ \<Rightarrow> Inr v
         | _ \<Rightarrow> Inl IndexError)
      else Inr ''N/A'')"

definition get_exif_data :: "env \<Rightarrow> string \<Rightarrow> state \<Rightarrow> (exn + exif) \<times> state" where
  "get_exif_data e image_path s =
     (case run e (Exiftool image_path) s of
        (Raised x, s1) \<Rightarrow>
          (if x = CalledProcessError \<or> x = FileNotFoundError
           then Inr [''iso'' \<mapsto> ''N/A'', ''shutter'' \<mapsto> ''N/A'']
           else Inl x, s1)
      | (Completed rc out, s1) \<Rightarrow>
          (let lines = split_on CHR 0x0A (strip out) in
           (case exif_field lines 0 of
              Inl x \<Rightarrow> Inl x
            | Inr v_make \<Rightarrow>
           (case exif_field lines 1 of
              Inl x \<Rightarrow> Inl x
            | Inr v_iso \<Rightarrow>
           (case exif_field lines 2 of
              Inl x \<Rightarrow> Inl x
            | Inr v_shutter \<Rightarrow>
           (case exif_field lines 3 of
              Inl x \<Rightarrow> Inl x
            | Inr v_fnumber \<Rightarrow>
                Inr [''make'' \<mapsto> v_make, ''iso'' \<mapsto> v_iso,
                     ''shutter'' \<mapsto> v_shutter, ''fnumber'' \<mapsto> v_fnumber])))), s1))"

subsection \<open>process\_image\<close>

text \<open>\<open>d[k]\<close> on a dictionary raises \<open>KeyError\<close> on a missing key.\<close>

definition lookup :: "exif \<Rightarrow> string \<Rightarrow> exn + string" where
  "lookup d k = (case d k of None \<Rightarrow> Inl KeyError | Some v \<Rightarrow> Inr v)"

text \<open>
  The caption (the block under \<open>if not text\<close>): the three comparisons are evaluated
  left to right and stop at the first that fails.
\<close>

definition caption :: "env \<Rightarrow> string \<Rightarrow> string \<Rightarrow> state \<Rightarrow> (exn + string) \<times> state" where
  "caption e input_path text s =
     (if text \<noteq> [] then (Inr text, s)
      else
        (case get_exif_data e input_path s of
           (Inl x, s1) \<Rightarrow> (Inl x, s1)
         | (Inr exif_data, s1) \<Rightarrow>
             (let dated = ''Processed '' @ today e in
              (case lookup exif_data ''iso'' of
                 Inl x \<Rightarrow> Inl x
               | Inr v_iso \<Rightarrow>
                   if v_iso = ''N/A'' then Inr dated
                   else
              (case lookup exif_data ''shutter'' of
                 Inl x \<Rightarrow> Inl x
               | Inr v_shutter \<Rightarrow>
                   if v_shutter = ''N/A'' then Inr dated
                   else
              (case lookup exif_data ''fnumber'' of
                 Inl x \<Rightarrow> Inl x
               | Inr v_fnumber \<Rightarrow>
                   if v_fnumber = ''N/A'' then Inr dated
                   else
              (case lookup exif_data ''make'' of
                 Inl x \<Rightarrow> Inl x
               | Inr v_make \<Rightarrow>
                   Inr (v_make @ '' f/'' @ v_fnumber @ '' '' @ v_shutter @ ''s ISO'' @ v_iso))))), s1)))"

text \<open>The compositing call and the check of its result (the end of the function).\<close>

definition compose :: "env \<Rightarrow> string \<Rightarrow> string \<Rightarrow> frame_spec \<Rightarrow> string \<Rightarrow> state
    \<Rightarrow> (exn + bool) \<times> state" where
  "compose e input_path output_path g text s =
     (case run e (Ffmpeg_compose input_path output_path g text) s of
        (Raised x, s1) \<Rightarrow>
          if x = TimeoutExpired then (Inr False, say (ImageTimedOut input_path) s1)
          else (Inl x, s1)
      | (Completed rc out, s1) \<Rightarrow>
          if rc \<noteq> 0 then (Inr False, say (ErrorProcessingImage input_path out) s1)
          else (Inr True, s1))"

definition process_image :: "env \<Rightarrow> string \<Rightarrow> string \<Rightarrow> string \<Rightarrow> state
    \<Rightarrow> (exn + bool) \<times> state" where
  "process_image e input_path output_path text s =
     (case run e (Ffprobe_dimensions input_path) s of
        (Raised x, s1) \<Rightarrow>
          if x = TimeoutExpired then (Inr False, say (TimeoutDimensions input_path) s1)
          else (Inl x, s1)
      | (Completed rc out, s1) \<Rightarrow>
          if rc \<noteq> 0 then (Inr False, say (ErrorDimensions input_path) s1)
          else
            (let dimensions = split_on CHR '','' (strip out) in
             if length dimensions < 2
             then (Inr False, say (InvalidDimensionData input_path out) s1)
             else
               (case (int_of_str (dimensions ! 0), int_of_str (dimensions ! 1)) of
                  (Some width, Some height) \<Rightarrow>
                    (case caption e input_path text s1 of
                       (Inl x, s2) \<Rightarrow> (Inl x, s2)
                     | (Inr text', s2) \<Rightarrow>
                         compose e input_path output_path (frame_geometry width) text' s2)
                | _ \<Rightarrow> (Inr False, say (InvalidDimensionValues input_path dimensions) s1))))"

subsection \<open>get\_audio\_duration and process\_audio\_for\_video\<close>

text \<open>
  The two \<open>except\<close> clauses of \<open>get_audio_duration\<close>; any other exception leaves the
  function.  The probe is started under the bare name \<open>ffprobe\<close>, so a missing binary
  raises \<open>FileNotFoundError\<close> here.
\<close>

definition audio_duration_except :: "string \<Rightarrow> exn \<Rightarrow> state \<Rightarrow> (exn + rat) \<times> state" where
  "audio_duration_except audio_path x s =
     (if x = CalledProcessError \<or> x = KeyError \<or> x = JSONDecodeError then (Inr 0, s)
      else if x = TimeoutExpired then (Inr 0, say (TimeoutAudioDuration audio_path) s)
      else (Inl x, s))"

definition get_audio_duration :: "env \<Rightarrow> string \<Rightarrow> state \<Rightarrow> (exn + rat) \<times> state" where
  "get_audio_duration e audio_path s =
     (case run e (Ffprobe_duration audio_path) s of
        (Raised x, s1) \<Rightarrow> audio_duration_except audio_path x s1
      | (Completed rc out, s1) \<Rightarrow>
          (case json_duration e out of
             Inl x \<Rightarrow> audio_duration_except audio_path x s1
           | Inr d \<Rightarrow> (Inr d, s1)))"

definition process_audio_for_video :: "env \<Rightarrow> string \<Rightarrow> rat \<Rightarrow> string \<Rightarrow> state
    \<Rightarrow> (exn + string option) \<times> state" where
  "process_audio_for_video e audio_path video_duration temp_dir s =
     (let processed_audio = path_join temp_dir ''processed_audio.mp3'' in
      (case get_audio_duration e audio_path s of
         (Inl x, s1) \<Rightarrow> (Inl x, s1)
       | (Inr audio_duration, s1) \<Rightarrow>
           if audio_duration \<le> 0 then (Inr None, say (WarnNoDuration audio_path) s1)
           else
             (let loop_count = py_ceil (fdiv video_duration audio_duration) in
              (case run e (Ffmpeg_audio loop_count audio_path video_duration processed_audio) s1 of
                 (Raised x, s2) \<Rightarrow>
                   if x = TimeoutExpired then (Inr None, say (AudioTimedOut audio_path) s2)
                   else (Inl x, s2)
               | (Completed rc out, s2) \<Rightarrow>
                   if rc \<noteq> 0 then (Inr None, say (ErrorProcessingAudio out) s2)
                   else (Inr (Some processed_audio), s2)))))"

subsection \<open>is\_encoder\_available\<close>

definition is_encoder_available :: "env \<Rightarrow> string \<Rightarrow> state \<Rightarrow> (exn + bool) \<times> state" where
  "is_encoder_available e encoder_name s =
     (case run e Ffmpeg_codecs s of
        (Raised x, s1) \<Rightarrow>
          if x = CalledProcessError \<or> x = FileNotFoundError then (Inr False, s1)
          else if x = TimeoutExpired then (Inr False, say TimedOutCodecs s1)
          else (Inl x, s1)
      | (Completed rc out, s1) \<Rightarrow> (Inr (contains encoder_name out), s1))"

subsection \<open>create\_video\<close>

text \<open>\<open>f"frame_{i:04d}.png"\<close>: the index in decimal, padded with zeros to four digits.\<close>

fun decimal :: "nat \<Rightarrow> string" where
  "decimal n =
     (if n < 10 then [char_of (48 + n)]
      else decimal (n div 10) @ [char_of (48 + n mod 10)])"

definition frame_name :: "nat \<Rightarrow> string" where
  "frame_name i =
     ''frame_'' @ replicate (4 - length (decimal i)) CHR ''0'' @ decimal i @ ''.png''"

text \<open>
  The loop over \<open>enumerate(image_paths)\<close>: \<open>i\<close> is the index of the next image,
  \<open>processed_images\<close> the list built so far.  An exception of \<open>process_image\<close> leaves the
  loop and the function.
\<close>

fun image_loop :: "env \<Rightarrow> bool \<Rightarrow> string \<Rightarrow> nat \<Rightarrow> nat \<Rightarrow> string list \<Rightarrow> string list
    \<Rightarrow> state \<Rightarrow> (exn + string list) \<times> state" where
  "image_loop e cb temp_dir total_images i [] processed_images s = (Inr processed_images, s)"
| "image_loop e cb temp_dir total_images i (img_path # rest) processed_images s =
     (let output_path = path_join temp_dir (frame_name i) in
      (case process_image e img_path output_path [] s of
         (Inl x, s1) \<Rightarrow> (Inl x, s1)
       | (Inr ok, s1) \<Rightarrow>
           if ok then
             image_loop e cb temp_dir total_images (i + 1) rest (processed_images @ [output_path])
               (notify cb (of_nat (i + 1), of_nat total_images, ''processing'')
                  (say (Processed (i + 1) total_images img_path) s1))
           else
             image_loop e cb temp_dir total_images (i + 1) rest processed_images
               (say (Skipping img_path) s1)))"

text \<open>\<open>shutil.rmtree(temp_dir)\<close>.\<close>

definition rmtree :: "string \<Rightarrow> state \<Rightarrow> state" where
  "rmtree d s = s\<lparr>dirs := dirs s - {d}\<rparr>"

text \<open>
  The audio step: \<open>music\<close> counts when it is neither \<open>None\<close> nor the empty string.
\<close>

definition audio_step :: "env \<Rightarrow> string option \<Rightarrow> rat \<Rightarrow> string \<Rightarrow> state
    \<Rightarrow> (exn + string option) \<times> state" where
  "audio_step e music total_duration temp_dir s =
     (case music of
        None \<Rightarrow> (Inr None, s)
      | Some m \<Rightarrow>
          if m = [] then (Inr None, s)
          else
            (case process_audio_for_video e m total_duration temp_dir (say ProcessingMusic s) of
               (Inl x, s1) \<Rightarrow> (Inl x, s1)
             | (Inr None, s1) \<Rightarrow> (Inr None, say WithoutAudio s1)
             | (Inr (Some a), s1) \<Rightarrow> (Inr (Some a), s1)))"

text \<open>
  The encoder choice: both branches set the same pixel format and bitrate.
\<close>

definition choose_encoder :: "env \<Rightarrow> state \<Rightarrow> (exn + string) \<times> state" where
  "choose_encoder e s =
     (case is_encoder_available e ''libx264'' s of
        (Inl x, s1) \<Rightarrow> (Inl x, s1)
      | (Inr available, s1) \<Rightarrow>
          if available then (Inr ''libx264'', say UsingLibx264 s1)
          else (Inr ''h264'', say UsingH264 s1))"

text \<open>
  \<open>progress = 70 + 30 * (proc.poll() is None) / 2\<close>: the product is an integer, the
  quotient and the sum are floats.
\<close>

definition progress_value :: "bool \<Rightarrow> rat" where
  "progress_value running = b64 (70 + int_truediv (30 * (if running then 1 else 0)) 2)"

text \<open>
  The loop over the lines of the mux output: one poll for each line.  The variable
  \<open>progress\<close> is assigned only there and only under a callback, so it is \<open>None\<close>
  (unbound) until then.
\<close>

fun mux_lines :: "bool \<Rightarrow> bool list \<Rightarrow> rat option \<Rightarrow> state \<Rightarrow> rat option \<times> state" where
  "mux_lines cb [] progress s = (progress, s)"
| "mux_lines cb (running # polls) progress s =
     (if cb then
        mux_lines cb polls (Some (progress_value running))
          (notify cb (progress_value running, 100, ''compiling'') s)
      else mux_lines cb polls progress s)"

text \<open>
  The \<open>try\<close> block around \<open>Popen\<close>: every exception is caught and becomes the return
  code -1.  The result is the return code and the variable \<open>progress\<close>.
\<close>

definition run_mux :: "env \<Rightarrow> bool \<Rightarrow> mux_cmd \<Rightarrow> state \<Rightarrow> (int \<times> rat option) \<times> state" where
  "run_mux e cb cmd s =
     (let s1 = s\<lparr>trace := trace s @ [Ffmpeg_mux cmd]\<rparr> in
      (case popen e (length (trace s)) cmd of
         PopenRaised polls x \<Rightarrow>
           (case mux_lines cb polls None s1 of
              (progress, s2) \<Rightarrow> ((- 1, progress), say (VideoCreationError x) s2))
       | PopenExited polls rc \<Rightarrow>
           (case mux_lines cb polls None s1 of
              (progress, s2) \<Rightarrow> ((rc, progress), s2))))"

text \<open>
  The end of \<open>create_video\<close>, after the scratch directory is removed.  The last
  statement calls \<open>progress_callback(progress, 100, "compiling")\<close> without a test: the
  arguments are evaluated first, so an unbound \<open>progress\<close> raises \<open>UnboundLocalError\<close>,
  and calling \<open>None\<close> raises \<open>TypeError\<close>.
\<close>

definition finish :: "bool \<Rightarrow> string \<Rightarrow> rat \<Rightarrow> nat \<Rightarrow> int \<Rightarrow> rat option \<Rightarrow> state
    \<Rightarrow> (exn + bool) \<times> state" where
  "finish cb output_video total_duration n returncode progress s =
     (if returncode \<noteq> 0 then (Inr False, say (ErrorCreatingVideo returncode) s)
      else
        (let s1 = say (NumberOfImages n)
                    (say (VideoDuration total_duration) (say (Success output_video) s)) in
         (case progress of
            None \<Rightarrow> (Inl UnboundLocalError, s1)
          | Some p \<Rightarrow>
              if cb then (Inr True, notify cb (p, 100, ''compiling'') s1)
              else (Inl TypeError, s1))))"

text \<open>
  The part of \<open>create_video\<close> after the image loop has left at least one frame.  The
  frame rate \<open>1/float(duration)\<close> raises \<open>ZeroDivisionError\<close> for a zero duration.
\<close>

definition assemble :: "env \<Rightarrow> bool \<Rightarrow> string \<Rightarrow> string \<Rightarrow> rat \<Rightarrow> string option
    \<Rightarrow> string list \<Rightarrow> state \<Rightarrow> (exn + bool) \<times> state" where
  "assemble e cb temp_dir output_video duration music processed_images s =
     (let total_duration = fmul (float_of_int (int (length processed_images))) duration in
      (case audio_step e music total_duration temp_dir s of
         (Inl x, s1) \<Rightarrow> (Inl x, s1)
       | (Inr final_audio, s1) \<Rightarrow>
      (case choose_encoder e s1 of
         (Inl x, s2) \<Rightarrow> (Inl x, s2)
       | (Inr codec, s2) \<Rightarrow>
           if duration = 0 then (Inl ZeroDivisionError, s2)
           else
             (let cmd = \<lparr> framerate = fdiv 1 duration,
                          frames_pattern = path_join temp_dir ''frame_%04d.png'',
                          audio_input = final_audio,
                          video_codec = codec,
                          pix_fmt = ''yuv420p'',
                          bitrate = ''8M'',
                          output_file = output_video \<rparr>;
                  s3 = notify cb (0, 0, ''compiling'')
                         (say (ExecutingCommand cmd) (say CreatingVideo s2)) in
              (case run_mux e cb cmd s3 of
                 ((returncode, progress), s4) \<Rightarrow>
                   finish cb output_video total_duration (length processed_images)
                     returncode progress (rmtree temp_dir s4))))))"

text \<open>The start of a run: \<open>tempfile.mkdtemp\<close> and the first line printed.\<close>

definition start_run :: "env \<Rightarrow> string list \<Rightarrow> state \<Rightarrow> state" where
  "start_run e image_paths s =
     say (ProcessingImages (length image_paths)) (s\<lparr>dirs := insert (mkdtemp e) (dirs s)\<rparr>)"

definition create_video :: "env \<Rightarrow> string list \<Rightarrow> string \<Rightarrow> rat \<Rightarrow> string option \<Rightarrow> bool
    \<Rightarrow> state \<Rightarrow> (exn + bool) \<times> state" where
  "create_video e image_paths output_video duration music cb s =
     (let temp_dir = mkdtemp e in
      (case image_loop e cb temp_dir (length image_paths) 0 image_paths []
              (start_run e image_paths s) of
         (Inl x, s1) \<Rightarrow> (Inl x, s1)
       | (Inr processed_images, s1) \<Rightarrow>
           if processed_images = []
           then (Inr False, rmtree temp_dir (say NoValidImages s1))
           else assemble e cb temp_dir output_video duration music processed_images s1))"

subsection \<open>Observations on a run\<close>

text \<open>
  The predicates the properties are stated with: the mux commands of a trace, the
  \<open>Processed i/N\<close> lines of a log, the phases of the callbacks, the callbacks that the
  \<open>Processed\<close> lines of a log stand for, and the callback made for one poll of the mux.
  A step is quiet when it leaves the directories and the callbacks alone, runs no mux
  and prints no \<open>Processed\<close> line.
\<close>

definition is_mux :: "invocation \<Rightarrow> bool" where
  "is_mux c = (case c of Ffmpeg_mux _ \<Rightarrow> True | _ \<Rightarrow> False)"

definition is_processed :: "msg \<Rightarrow> bool" where
  "is_processed m = (case m of Processed _ _ _ \<Rightarrow> True | _ \<Rightarrow> False)"

definition is_processing :: "rat \<times> rat \<times> string \<Rightarrow> bool" where
  "is_processing c = (snd (snd c) = ''processing'')"

definition is_compiling :: "rat \<times> rat \<times> string \<Rightarrow> bool" where
  "is_compiling c = (snd (snd c) = ''compiling'')"



definition quiet :: "state \<Rightarrow> state \<Rightarrow> bool" where
  "quiet s s' =
     (dirs s' = dirs s \<and> calls s' = calls s
      \<and> filter is_mux (trace s') = filter is_mux (trace s)
      \<and> filter is_processed (log s') = filter is_processed (log s))"

definition poll_call :: "bool \<Rightarrow> rat \<times> rat \<times> string" where
  "poll_call running = (progress_value running, 100, ''compiling'')"






subsection \<open>Concrete environments and inputs\<close>

text \<open>The state before a run: nothing run, called or printed, no directory.\<close>

definition s_init :: state where
  "s_init = \<lparr> trace = [], calls = [], log = [], dirs = {} \<rparr>"

text \<open>
  An environment in which every tool works: the probe reports a 16 by 9 image, the
  metadata tool is not installed, the audio lasts ten seconds and the mux prints no line
  and exits with code 0.
\<close>

definition env_silent_mux :: env where
  "env_silent_mux =
     \<lparr> tool = (\<lambda>n c. case c of
                  Exiftool p \<Rightarrow> Raised FileNotFoundError
                | Ffprobe_dimensions p \<Rightarrow> Completed 0 ''16,9''
                | _ \<Rightarrow> Completed 0 []),
       popen = (\<lambda>n c. PopenExited [] 0),
       mkdtemp = ''/tmp/video_frames_a'',
       today = ''2025-01-01'',
       json_duration = (\<lambda>out. Inr 10) \<rparr>"

text \<open>
  An environment in which the probe fails for \<open>bad.jpg\<close> and works for every other
  image, and the mux prints one line while it runs and exits with code 0; one in which
  no binary is installed; and the final states of four runs.
\<close>

definition env_demo :: env where
  "env_demo =
     \<lparr> tool = (\<lambda>n c. case c of
                  Exiftool p \<Rightarrow> Raised FileNotFoundError
                | Ffprobe_dimensions p \<Rightarrow>
                    if p = ''bad.jpg'' then Completed 1 [] else Completed 0 ''16,9''
                | _ \<Rightarrow> Completed 0 []),
       popen = (\<lambda>n c. PopenExited [True] 0),
       mkdtemp = ''/tmp/video_frames_a'',
       today = ''2025-01-01'',
       json_duration = (\<lambda>out. Inr 10) \<rparr>"

definition env_no_ffprobe :: env where
  "env_no_ffprobe =
     \<lparr> tool = (\<lambda>n c. Raised FileNotFoundError),
       popen = (\<lambda>n c. PopenExited [True] 0),
       mkdtemp = ''/tmp/video_frames_a'',
       today = ''2025-01-01'',
       json_duration = (\<lambda>out. Inr 10) \<rparr>"

definition mux_demo :: mux_cmd where
  "mux_demo =
     \<lparr> framerate = 3602879701896397 / 18014398509481984,
       frames_pattern = ''/tmp/video_frames_a/frame_%04d.png'',
       audio_input = None, video_codec = ''h264'', pix_fmt = ''yuv420p'',
       bitrate = ''8M'', output_file = ''out.mp4'' \<rparr>"

definition trace_demo :: "invocation list" where
  "trace_demo =
     [Ffprobe_dimensions ''bad.jpg'', Ffprobe_dimensions ''a.jpg'', Exiftool ''a.jpg'',
      Ffmpeg_compose ''a.jpg'' ''/tmp/video_frames_a/frame_0001.png''
        \<lparr> bg_width = 16, bg_height = 9, info_height = 1, total_height = 10, font_size = 40 \<rparr>
        ''Processed 2025-01-01'',
      Ffmpeg_codecs, Ffmpeg_mux mux_demo]"

definition log_demo :: "msg list" where
  "log_demo =
     [ProcessingImages 2, ErrorDimensions ''bad.jpg'', Skipping ''bad.jpg'',
      Processed 2 2 ''a.jpg'', UsingH264, CreatingVideo, ExecutingCommand mux_demo,
      Success ''out.mp4'', VideoDuration 5, NumberOfImages 1]"

definition final_demo :: state where
  "final_demo =
     \<lparr> trace = trace_demo,
       calls = [(2, 2, ''processing''), (0, 0, ''compiling''),
                (85, 100, ''compiling''), (85, 100, ''compiling'')],
       log = log_demo, dirs = {} \<rparr>"

definition final_demo_no_callback :: state where
  "final_demo_no_callback = \<lparr> trace = trace_demo, calls = [], log = log_demo, dirs = {} \<rparr>"


definition final_no_ffprobe :: state where
  "final_no_ffprobe =
     \<lparr> trace = [Ffprobe_dimensions ''a.jpg''], calls = [], log = [ProcessingImages 1],
       dirs = {''/tmp/video_frames_a''} \<rparr>"








section \<open>Properties\<close>

subsection \<open>What each step leaves unchanged\<close>

lemma quiet_refl [simp]: "quiet s s"
  by (simp add: quiet_def)

lemma quiet_trans: "quiet s s1 \<Longrightarrow> quiet s1 s2 \<Longrightarrow> quiet s s2"
  by (simp add: quiet_def)

lemma quiet_say: "\<not> is_processed m \<Longrightarrow> quiet s (say m s)"
  by (simp add: quiet_def say_def)

lemma quiet_run: "run e c s = (r, s') \<Longrightarrow> \<not> is_mux c \<Longrightarrow> quiet s s'"
  by (auto simp: quiet_def run_def)

lemma get_exif_data_quiet: "get_exif_data e p s = (r, s') \<Longrightarrow> quiet s s'"
  unfolding get_exif_data_def
  by (auto split: prod.splits proc.splits simp: quiet_def run_def is_mux_def)

lemma caption_quiet: "caption e p t s = (r, s') \<Longrightarrow> quiet s s'"
  unfolding caption_def
  by (auto split: prod.splits sum.splits if_splits dest: get_exif_data_quiet)

lemma compose_quiet: "compose e p out g t s = (r, s') \<Longrightarrow> quiet s s'"
  unfolding compose_def
  by (auto split: prod.splits proc.splits if_splits
      simp: quiet_def run_def say_def is_mux_def is_processed_def)

lemma process_image_quiet:
  assumes "process_image e p out t s = (r, s')"
  shows "quiet s s'"
proof (cases "tool e (length (trace s)) (Ffprobe_dimensions p)")
  case (Raised x)
  with assms show ?thesis
    by (auto simp: process_image_def quiet_def run_def say_def is_mux_def is_processed_def
        split: if_splits)
next
  case (Completed rc out')
  let ?s1 = "s\<lparr>trace := trace s @ [Ffprobe_dimensions p]\<rparr>"
  have q1: "quiet s ?s1" by (simp add: quiet_def is_mux_def)
  have q2: "quiet ?s1 (say m ?s1)" if "\<not> is_processed m" for m
    using that by (rule quiet_say)
  from assms Completed show ?thesis
    apply (simp add: process_image_def run_def Let_def
        split: if_splits option.splits prod.splits sum.splits)
    using q1 q2
    by (auto simp: is_processed_def dest!: caption_quiet compose_quiet intro: quiet_trans)
qed

lemma get_audio_duration_quiet: "get_audio_duration e a s = (r, s') \<Longrightarrow> quiet s s'"
  unfolding get_audio_duration_def audio_duration_except_def
  by (auto split: prod.splits proc.splits sum.splits if_splits
      simp: quiet_def run_def say_def is_mux_def is_processed_def)

lemma process_audio_quiet:
  assumes "process_audio_for_video e a v d s = (r, s')"
  shows "quiet s s'"
proof -
  obtain r1 s1 where g: "get_audio_duration e a s = (r1, s1)" by force
  then have q1: "quiet s s1" by (rule get_audio_duration_quiet)
  have "quiet s1 s'"
    using assms g
    by (auto simp: process_audio_for_video_def Let_def quiet_def run_def say_def
        is_mux_def is_processed_def split: sum.splits if_splits proc.splits)
  with q1 show ?thesis by (rule quiet_trans)
qed

lemma audio_step_quiet:
  assumes "audio_step e music v d s = (r, s')"
  shows "quiet s s'"
proof (cases music)
  case None
  with assms show ?thesis by (simp add: audio_step_def)
next
  case (Some m)
  show ?thesis
  proof (cases "m = []")
    case True
    with assms Some show ?thesis by (simp add: audio_step_def)
  next
    case False
    obtain r1 s1 where p: "process_audio_for_video e m v d (say ProcessingMusic s) = (r1, s1)"
      by force
    have q0: "quiet s (say ProcessingMusic s)"
      by (rule quiet_say) (simp add: is_processed_def)
    have q1: "quiet (say ProcessingMusic s) s1"
      using p by (rule process_audio_quiet)
    have q2: "quiet s1 s'"
      using assms Some False p
      by (auto simp: audio_step_def quiet_say is_processed_def
          split: sum.splits option.splits)
    from q0 q1 q2 show ?thesis by (blast intro: quiet_trans)
  qed
qed

lemma is_encoder_available_quiet: "is_encoder_available e n s = (r, s') \<Longrightarrow> quiet s s'"
  unfolding is_encoder_available_def
  by (auto split: prod.splits proc.splits if_splits
      simp: quiet_def run_def say_def is_mux_def is_processed_def)

lemma choose_encoder_quiet:
  assumes "choose_encoder e s = (r, s')"
  shows "quiet s s'"
proof -
  obtain r1 s1 where g: "is_encoder_available e ''libx264'' s = (r1, s1)" by force
  then have q1: "quiet s s1" by (rule is_encoder_available_quiet)
  have "quiet s1 s'"
    using assms g
    by (auto simp: choose_encoder_def quiet_say is_processed_def split: sum.splits if_splits)
  with q1 show ?thesis by (rule quiet_trans)
qed





lemma image_loop_frame:
  "image_loop e cb t n i ps acc s = (r, s') \<Longrightarrow>
     dirs s' = dirs s \<and> filter is_mux (trace s') = filter is_mux (trace s)
     \<and> filter is_compiling (calls s') = filter is_compiling (calls s)"
proof (induction ps arbitrary: i acc s)
  case Nil
  then show ?case by simp
next
  case (Cons p ps)
  obtain r1 s1 where pi: "process_image e p (path_join t (frame_name i)) [] s = (r1, s1)"
    by force
  then have q: "quiet s s1" by (rule process_image_quiet)
  show ?case
  proof (cases r1)
    case (Inl x)
    with Cons.prems pi q show ?thesis by (auto simp: quiet_def)
  next
    case (Inr ok)
    show ?thesis
    proof (cases ok)
      case True
      let ?s2 = "notify cb (of_nat (i + 1), of_nat n, ''processing'')
                   (say (Processed (i + 1) n p) s1)"
      from Cons.prems pi Inr True
      have "image_loop e cb t n (i + 1) ps (acc @ [path_join t (frame_name i)]) ?s2 = (r, s')"
        by simp
      from Cons.IH [OF this] q show ?thesis
        by (simp add: quiet_def notify_def say_def is_compiling_def)
    next
      case False
      from Cons.prems pi Inr False
      have "image_loop e cb t n (i + 1) ps acc (say (Skipping p) s1) = (r, s')"
        by simp
      from Cons.IH [OF this] q show ?thesis
        by (simp add: quiet_def say_def)
    qed
  qed
qed





lemma mux_lines_props:
  "mux_lines cb polls pr s = (pr', s') \<Longrightarrow>
     dirs s' = dirs s \<and> trace s' = trace s \<and> log s' = log s
     \<and> calls s' = calls s @ (if cb then map poll_call polls else [])
     \<and> pr' = (if cb \<and> polls \<noteq> [] then Some (progress_value (last polls)) else pr)"
proof (induction polls arbitrary: pr s)
  case Nil
  then show ?case by simp
next
  case (Cons b polls)
  show ?case
  proof (cases cb)
    case True
    with Cons.prems
    have "mux_lines cb polls (Some (progress_value b))
            (notify cb (progress_value b, 100, ''compiling'') s) = (pr', s')"
      by simp
    from Cons.IH [OF this] True show ?thesis
      by (simp add: notify_def poll_call_def)
  next
    case False
    with Cons.prems have "mux_lines cb polls pr s = (pr', s')" by simp
    from Cons.IH [OF this] False show ?thesis by simp
  qed
qed

lemma run_mux_props:
  assumes "run_mux e cb cmd s = ((rc, pr), s')"
  shows "\<exists>polls. dirs s' = dirs s \<and> trace s' = trace s @ [Ffmpeg_mux cmd]
     \<and> filter is_processed (log s') = filter is_processed (log s)
     \<and> calls s' = calls s @ (if cb then map poll_call polls else [])
     \<and> pr = (if cb \<and> polls \<noteq> [] then Some (progress_value (last polls)) else None)"
proof (cases "popen e (length (trace s)) cmd")
  case (PopenRaised polls x)
  obtain p1 s1 where m: "mux_lines cb polls None (s\<lparr>trace := trace s @ [Ffmpeg_mux cmd]\<rparr>) = (p1, s1)"
    by force
  from assms PopenRaised m have "pr = p1" "s' = say (VideoCreationError x) s1"
    by (simp_all add: run_mux_def Let_def)
  with mux_lines_props [OF m] show ?thesis
    by (intro exI [of _ polls]) (simp add: say_def is_processed_def)
next
  case (PopenExited polls c)
  obtain p1 s1 where m: "mux_lines cb polls None (s\<lparr>trace := trace s @ [Ffmpeg_mux cmd]\<rparr>) = (p1, s1)"
    by force
  from assms PopenExited m have "pr = p1" "s' = s1"
    by (simp_all add: run_mux_def Let_def)
  with mux_lines_props [OF m] show ?thesis
    by (intro exI [of _ polls]) simp
qed

lemma finish_props:
  assumes "finish cb out td n rc pr s = (r, s')"
  shows "dirs s' = dirs s \<and> trace s' = trace s
     \<and> filter is_processed (log s') = filter is_processed (log s)
     \<and> calls s' = calls s @ (if r = Inr True then [(the pr, 100, ''compiling'')] else [])
     \<and> (r = Inr True \<longrightarrow> cb \<and> pr \<noteq> None \<and> rc = 0)"
  using assms
  by (auto simp: finish_def Let_def say_def notify_def is_processed_def
      split: if_splits option.splits)

lemma assemble_cases:
  assumes "assemble e cb t out d music ps s = (r, s')"
  shows "(\<exists>x. r = Inl x \<and> quiet s s')
     \<or> (\<exists>cmd polls. dirs s' = dirs s - {t}
          \<and> filter is_mux (trace s') = filter is_mux (trace s) @ [Ffmpeg_mux cmd]
          \<and> filter is_processed (log s') = filter is_processed (log s)
          \<and> calls s' = calls s @ (if cb then (0, 0, ''compiling'') # map poll_call polls else [])
                @ (if r = Inr True then [poll_call (last polls)] else [])
          \<and> (r = Inr True \<longrightarrow> cb \<and> polls \<noteq> []))"
proof -
  let ?td = "fmul (float_of_int (int (length ps))) d"
  obtain ra s1 where a: "audio_step e music ?td t s = (ra, s1)" by force
  then have q1: "quiet s s1" by (rule audio_step_quiet)
  show ?thesis
  proof (cases ra)
    case (Inl x)
    with assms a q1 show ?thesis by (auto simp: assemble_def Let_def)
  next
    case (Inr final_audio)
    obtain rc s2 where c: "choose_encoder e s1 = (rc, s2)" by force
    then have "quiet s1 s2" by (rule choose_encoder_quiet)
    with q1 have q2: "quiet s s2" by (rule quiet_trans)
    show ?thesis
    proof (cases rc)
      case (Inl x)
      with assms a c Inr q2 show ?thesis by (auto simp: assemble_def Let_def)
    next
      case codec: (Inr codec)
      show ?thesis
      proof (cases "d = 0")
        case True
        with assms a c Inr codec q2 show ?thesis by (auto simp: assemble_def Let_def)
      next
        case False
        define cmd where "cmd = \<lparr> framerate = fdiv 1 d,
                          frames_pattern = path_join t ''frame_%04d.png'',
                          audio_input = final_audio,
                          video_codec = codec,
                          pix_fmt = ''yuv420p'',
                          bitrate = ''8M'',
                          output_file = out \<rparr>"
        define s3 where "s3 = notify cb (0, 0, ''compiling'')
                         (say (ExecutingCommand cmd) (say CreatingVideo s2))"
        obtain rcode pr s4 where m: "run_mux e cb cmd s3 = ((rcode, pr), s4)"
          by (metis prod.exhaust)
        from assms a c Inr codec False m
        have f: "finish cb out ?td (length ps) rcode pr (rmtree t s4) = (r, s')"
          by (simp add: assemble_def Let_def cmd_def s3_def)
        from run_mux_props [OF m] obtain polls where
          p: "dirs s4 = dirs s3" "trace s4 = trace s3 @ [Ffmpeg_mux cmd]"
             "filter is_processed (log s4) = filter is_processed (log s3)"
             "calls s4 = calls s3 @ (if cb then map poll_call polls else [])"
             "pr = (if cb \<and> polls \<noteq> [] then Some (progress_value (last polls)) else None)"
          by blast
        have s3: "dirs s3 = dirs s" "filter is_mux (trace s3) = filter is_mux (trace s)"
          "filter is_processed (log s3) = filter is_processed (log s)"
          "calls s3 = calls s @ (if cb then [(0, 0, ''compiling'')] else [])"
          using q2 by (simp_all add: s3_def notify_def say_def quiet_def is_processed_def)
        from finish_props [OF f] have
          fp: "dirs s' = dirs (rmtree t s4)" "trace s' = trace (rmtree t s4)"
              "filter is_processed (log s') = filter is_processed (log (rmtree t s4))"
              "calls s' = calls (rmtree t s4) @ (if r = Inr True then [(the pr, 100, ''compiling'')] else [])"
              "r = Inr True \<longrightarrow> cb \<and> pr \<noteq> None \<and> rcode = 0"
          by blast+
        have "dirs s' = dirs s - {t}"
          using fp(1) p(1) s3(1) by (simp add: rmtree_def)
        moreover have "filter is_mux (trace s') = filter is_mux (trace s) @ [Ffmpeg_mux cmd]"
          using fp(2) p(2) s3(2) by (simp add: rmtree_def is_mux_def)
        moreover have "filter is_processed (log s') = filter is_processed (log s)"
          using fp(3) p(3) s3(3) by (simp add: rmtree_def)
        moreover have "r = Inr True \<longrightarrow> cb \<and> polls \<noteq> []"
          using fp(5) p(5) by (auto split: if_splits)
        moreover have "calls s' = calls s @ (if cb then (0, 0, ''compiling'') # map poll_call polls else [])
                @ (if r = Inr True then [poll_call (last polls)] else [])"
          using fp(4) fp(5) p(4) p(5) s3(4) by (auto simp: rmtree_def poll_call_def)
        ultimately show ?thesis by blast
      qed
    qed
  qed
qed

subsection \<open>Rounding to binary64 and the frame geometry\<close>

lemma two_powi_pos [simp]: "(0::rat) < 2 powi k"
  by (simp add: power_int_def)

lemma two_powi_nat: "0 \<le> k \<Longrightarrow> (2::rat) powi k = 2 ^ nat k"
  by (simp add: power_int_def)

lemma flog2_le:
  assumes "0 < x"
  shows "2 powi (flog2 x) \<le> x"
proof -
  obtain p q where pq: "quotient_of x = (p, q)" by force
  then have q: "0 < q" by (rule quotient_of_denom_pos)
  from pq have x: "x = of_int p / of_int q" by (rule quotient_of_div)
  with assms q have p: "0 < p" by (simp add: zero_less_divide_iff)
  let ?e = "bitlen p - bitlen q"
  have bp: "0 < bitlen p" and bq: "0 < bitlen q"
    using p q bitlen_nonneg [of p] bitlen_nonneg [of q] bitlen_eq_zero_iff [of p]
      bitlen_eq_zero_iff [of q] by linarith+
  from bitlen_bounds [OF p] have lp: "(2::int) ^ nat (bitlen p - 1) \<le> p" by simp
  from bitlen_bounds [OF q] have uq: "q < (2::int) ^ nat (bitlen q)" by simp
  have "(2::rat) powi (?e - 1) = 2 powi (bitlen p - 1) / 2 powi (bitlen q)"
    by (simp add: power_int_diff)
  also have "\<dots> = 2 ^ nat (bitlen p - 1) / 2 ^ nat (bitlen q)"
    using bp bq by (simp add: two_powi_nat)
  also have "\<dots> \<le> of_int p / of_int q"
  proof -
    have a: "(2::rat) ^ nat (bitlen p - 1) \<le> of_int p"
      using lp by (metis of_int_le_iff of_int_numeral of_int_power)
    have b: "(of_int q :: rat) \<le> 2 ^ nat (bitlen q)"
      using uq by (metis less_imp_le of_int_le_iff of_int_numeral of_int_power)
    have c: "(0::rat) < of_int q" using q by simp
    show ?thesis
      by (rule frac_le) (use a b c p in simp_all)
  qed
  finally have "(2::rat) powi (?e - 1) \<le> x" using x by simp
  then show ?thesis
    using pq by (simp add: flog2_def Let_def)
qed

text \<open>With \<open>flog2_le\<close>: \<open>flog2 x\<close> is the exponent of \<open>x\<close>.\<close>

lemma flog2_gt:
  assumes "0 < x"
  shows "x < 2 powi (flog2 x + 1)"
proof -
  obtain p q where pq: "quotient_of x = (p, q)" by force
  then have q: "0 < q" by (rule quotient_of_denom_pos)
  from pq have x: "x = of_int p / of_int q" by (rule quotient_of_div)
  with assms q have p: "0 < p" by (simp add: zero_less_divide_iff)
  let ?e = "bitlen p - bitlen q"
  have bp: "0 < bitlen p" and bq: "0 < bitlen q"
    using p q bitlen_nonneg [of p] bitlen_nonneg [of q] bitlen_eq_zero_iff [of p]
      bitlen_eq_zero_iff [of q] by linarith+
  from bitlen_bounds [OF p] have up: "p < (2::int) ^ nat (bitlen p)" by simp
  from bitlen_bounds [OF q] have lq: "(2::int) ^ nat (bitlen q - 1) \<le> q" by simp
  have a: "(of_int p :: rat) < 2 ^ nat (bitlen p)"
    using up by (metis of_int_less_iff of_int_numeral of_int_power)
  have b: "(2::rat) ^ nat (bitlen q - 1) \<le> of_int q"
    using lq by (metis of_int_le_iff of_int_numeral of_int_power)
  have "of_int p / of_int q < (2::rat) ^ nat (bitlen p) / 2 ^ nat (bitlen q - 1)"
    by (rule frac_less) (use a b p in simp_all)
  also have "\<dots> = 2 powi (bitlen p) / 2 powi (bitlen q - 1)"
    using bp bq by (simp add: two_powi_nat)
  also have "\<dots> = 2 powi (?e + 1)"
    by (simp add: power_int_diff [symmetric] algebra_simps)
  finally have u: "x < 2 powi (?e + 1)" using x by simp
  show ?thesis
  proof (cases "(2::rat) powi ?e \<le> x")
    case True
    with u pq show ?thesis by (simp add: flog2_def Let_def)
  next
    case False
    with pq show ?thesis by (simp add: flog2_def Let_def)
  qed
qed

lemma round_half_even_of_int [simp]: "round_half_even (of_int n) = n"
  by (simp add: round_half_even_def)

lemma round_half_even_ge_floor: "\<lfloor>y\<rfloor> \<le> round_half_even y"
  by (simp add: round_half_even_def Let_def)

lemma round_half_even_le: "of_int (round_half_even y) \<le> y + 1 / 2"
proof (cases "y - of_int \<lfloor>y\<rfloor> < 1 / 2")
  case True
  have "of_int \<lfloor>y\<rfloor> \<le> y" by simp
  then have "of_int \<lfloor>y\<rfloor> \<le> y + 1 / 2" by linarith
  with True show ?thesis by (simp add: round_half_even_def Let_def)
next
  case False
  then have a: "of_int (\<lfloor>y\<rfloor> + 1) \<le> y + 1 / 2" by simp
  have "of_int \<lfloor>y\<rfloor> \<le> y" by simp
  then have b: "of_int \<lfloor>y\<rfloor> \<le> y + 1 / 2" by linarith
  have "round_half_even y = \<lfloor>y\<rfloor> \<or> round_half_even y = \<lfloor>y\<rfloor> + 1"
    by (simp add: round_half_even_def Let_def)
  with a b show ?thesis by auto
qed

lemma flog2_less:
  assumes "0 < x" "x < 2 ^ n"
  shows "flog2 x < int n"
proof (rule ccontr)
  assume "\<not> flog2 x < int n"
  then have "int n \<le> flog2 x" by simp
  then have "(2::rat) powi (int n) \<le> 2 powi (flog2 x)"
    by (intro power_int_increasing) simp_all
  with flog2_le [OF assms(1)] have "(2::rat) ^ n \<le> x" by simp
  with assms(2) show False by simp
qed


text \<open>Exact: a positive multiple of 1/16 below \<open>2 ^ 49\<close> is a float.\<close>

lemma b64_exact:
  assumes "0 < x" "x < 2 ^ 49" "x = of_int n / 16"
  shows "b64 x = x"
proof -
  let ?e = "flog2 x"
  from flog2_less [OF assms(1,2)] have e: "?e < 49" by simp
  then have k: "0 \<le> 48 - ?e" by simp
  have p: "(2::rat) powi (52 - ?e) = 16 * 2 powi (48 - ?e)"
  proof -
    have "(2::rat) powi (52 - ?e) = 2 powi (4 + (48 - ?e))" by simp
    also have "\<dots> = 2 powi 4 * 2 powi (48 - ?e)"
      by (rule power_int_add) simp
    finally show ?thesis by simp
  qed
  have x16: "x * 16 = of_int n" using assms(3) by simp
  have "x / 2 powi (?e - 52) = x * 2 powi (52 - ?e)"
    by (simp add: power_int_diff field_simps)
  also have "\<dots> = (x * 16) * 2 powi (48 - ?e)"
    by (simp add: p)
  also have "\<dots> = of_int n * 2 powi (48 - ?e)"
    by (simp only: x16)
  also have "\<dots> = of_int (n * 2 ^ nat (48 - ?e))"
    using k by (simp add: two_powi_nat)
  finally have q: "x / 2 powi (?e - 52) = of_int (n * 2 ^ nat (48 - ?e))" .
  have "b64 x = of_int (round_half_even (x / 2 powi (?e - 52))) * 2 powi (?e - 52)"
    using assms(1) by (simp add: b64_def Let_def)
  also have "\<dots> = (x / 2 powi (?e - 52)) * 2 powi (?e - 52)"
    by (simp only: q round_half_even_of_int)
  also have "\<dots> = x" by simp
  finally show ?thesis .
qed

text \<open>Rounding does not go below an integer that the exact value reaches.\<close>

lemma b64_ge_int:
  assumes "0 < x" "x < 2 ^ 53" "of_int k \<le> x"
  shows "of_int k \<le> b64 x"
proof -
  let ?e = "flog2 x"
  let ?u = "(2::rat) powi (?e - 52)"
  from flog2_less [OF assms(1,2)] have e: "?e < 53" by simp
  then have n: "0 \<le> 52 - ?e" by simp
  have u: "1 / ?u = 2 ^ nat (52 - ?e)"
    using n by (simp add: power_int_diff two_powi_nat [symmetric] field_simps)
  have "of_int k / ?u = of_int (k * 2 ^ nat (52 - ?e))"
    using u by (simp add: field_simps)
  moreover have "of_int k / ?u \<le> x / ?u"
    using assms(3) by (simp add: divide_right_mono)
  ultimately have "of_int (k * 2 ^ nat (52 - ?e)) \<le> x / ?u" by simp
  then have "k * 2 ^ nat (52 - ?e) \<le> \<lfloor>x / ?u\<rfloor>" by (simp add: le_floor_iff)
  also have "\<dots> \<le> round_half_even (x / ?u)" by (rule round_half_even_ge_floor)
  finally have "(of_int (k * 2 ^ nat (52 - ?e)) :: rat) \<le> of_int (round_half_even (x / ?u))"
    by (simp only: of_int_le_iff)
  then have "of_int (k * 2 ^ nat (52 - ?e)) * ?u \<le> of_int (round_half_even (x / ?u)) * ?u"
    by (simp add: mult_right_mono)
  moreover have "of_int (k * 2 ^ nat (52 - ?e)) * ?u = of_int k"
    using u by (simp add: field_simps)
  ultimately have "of_int k \<le> of_int (round_half_even (x / ?u)) * ?u"
    by (simp only:)
  then show ?thesis
    using assms(1) by (simp add: b64_def Let_def)
qed

text \<open>Rounding adds at most half a unit in the last place.\<close>

lemma b64_le:
  assumes "0 < x"
  shows "b64 x \<le> x + x / 2 ^ 53"
proof -
  let ?e = "flog2 x"
  let ?u = "(2::rat) powi (?e - 52)"
  have "of_int (round_half_even (x / ?u)) * ?u \<le> (x / ?u + 1 / 2) * ?u"
    by (intro mult_right_mono round_half_even_le) simp
  also have "\<dots> = x + ?u / 2" by (simp add: field_simps)
  also have "?u / 2 = 2 powi ?e / 2 ^ 53"
    by (simp add: power_int_diff)
  also have "\<dots> \<le> x / 2 ^ 53"
    using flog2_le [OF assms] by (simp add: divide_right_mono)
  finally show ?thesis using assms by (simp add: b64_def Let_def)
qed

lemma float_of_int_exact:
  assumes "0 \<le> n" "n < 2 ^ 40"
  shows "float_of_int n = of_int n"
proof (cases "n = 0")
  case True
  then show ?thesis by (simp add: float_of_int_def b64_def)
next
  case False
  with assms have p: "(0::rat) < of_int n" by simp
  have "n < 2 ^ 49" using assms(2) by simp
  then have u: "(of_int n :: rat) < 2 ^ 49"
    by (metis of_int_less_iff of_int_numeral of_int_power)
  have "(of_int n :: rat) = of_int (n * 16) / 16" by simp
  from b64_exact [OF p u this] show ?thesis by (simp add: float_of_int_def)
qed

lemma truediv_16_floor:
  assumes "0 \<le> n" "n < 2 ^ 40"
  shows "py_int (int_truediv n 16) = n div 16"
proof (cases "n = 0")
  case True
  then show ?thesis by (simp add: int_truediv_def b64_def py_int_def)
next
  case False
  let ?x = "of_int n / 16 :: rat"
  from False assms have p: "0 < ?x" by simp
  have "(of_int n :: rat) < 2 ^ 40"
    using assms(2) by (metis of_int_less_iff of_int_numeral of_int_power)
  then have u: "?x < 2 ^ 49" by simp
  from b64_exact [OF p u refl] have e: "int_truediv n 16 = ?x"
    by (simp add: int_truediv_def)
  have "\<lfloor>of_int n / of_int 16 :: rat\<rfloor> = n div 16"
    by (rule floor_divide_of_int_eq)
  then have f: "\<lfloor>?x\<rfloor> = n div 16" by simp
  from p have "py_int ?x = \<lfloor>?x\<rfloor>" by (simp add: py_int_def)
  with e f show ?thesis by (simp only:)
qed

lemma floor_b64_between:
  assumes "0 < x" "x < 2 ^ 53" "of_int q \<le> x" "x + x / 2 ^ 53 < of_int q + 1"
  shows "\<lfloor>b64 x\<rfloor> = q" and "0 \<le> b64 x"
proof -
  have l: "of_int q \<le> b64 x" using assms(1,2,3) by (rule b64_ge_int)
  have "b64 x \<le> x + x / 2 ^ 53" using assms(1) by (rule b64_le)
  with assms(4) have "b64 x < of_int q + 1" by simp
  with l show "\<lfloor>b64 x\<rfloor> = q" by (simp add: floor_unique)
  have "(0::rat) \<le> of_int (0::int)" by simp
  from b64_ge_int [OF assms(1,2), of 0] assms(1) show "0 \<le> b64 x" by simp
qed

lemma times_0_2_floor:
  assumes "0 \<le> n" "n < 2 ^ 40"
  shows "py_int (fmul (float_of_int n) c_0_2) = n div 5"
proof (cases "n = 0")
  case True
  then show ?thesis by (simp add: float_of_int_def fmul_def b64_def py_int_def)
next
  case False
  let ?q = "n div 5"
  let ?x = "of_int n * c_0_2"
  have n: "(0::rat) < of_int n" "(of_int n :: rat) < 2 ^ 40"
    using False assms
    by (simp, metis of_int_less_iff of_int_numeral of_int_power)
  have q: "5 * ?q \<le> n" "n \<le> 5 * ?q + 4" "0 \<le> ?q"
    using assms(1) by simp_all
  then have qr: "5 * (of_int ?q :: rat) \<le> of_int n" "(of_int n :: rat) \<le> 5 * of_int ?q + 4"
    "(0::rat) \<le> of_int ?q"
    by (metis of_int_le_iff of_int_mult of_int_numeral,
        metis of_int_le_iff of_int_mult of_int_numeral of_int_add, simp)
  have 1: "0 < ?x" using n by (simp add: c_0_2_def)
  have 2: "?x < 2 ^ 53" using n by (simp add: c_0_2_def)
  have 3: "of_int ?q \<le> ?x" using qr n by (simp add: c_0_2_def)
  have 4: "?x + ?x / 2 ^ 53 < of_int ?q + 1" using qr n by (simp add: c_0_2_def)
  from floor_b64_between [OF 1 2 3 4] float_of_int_exact [OF assms]
  show ?thesis by (simp add: fmul_def py_int_def)
qed

lemma times_0_025_floor:
  assumes "0 \<le> n" "n < 2 ^ 40"
  shows "py_int (fmul (float_of_int n) c_0_025) = n div 40"
proof (cases "n = 0")
  case True
  then show ?thesis by (simp add: float_of_int_def fmul_def b64_def py_int_def)
next
  case False
  let ?q = "n div 40"
  let ?x = "of_int n * c_0_025"
  have n: "(0::rat) < of_int n" "(of_int n :: rat) < 2 ^ 40"
    using False assms
    by (simp, metis of_int_less_iff of_int_numeral of_int_power)
  have q: "40 * ?q \<le> n" "n \<le> 40 * ?q + 39" "0 \<le> ?q"
    using assms(1) by simp_all
  then have qr: "40 * (of_int ?q :: rat) \<le> of_int n" "(of_int n :: rat) \<le> 40 * of_int ?q + 39"
    "(0::rat) \<le> of_int ?q"
    by (metis of_int_le_iff of_int_mult of_int_numeral,
        metis of_int_le_iff of_int_mult of_int_numeral of_int_add, simp)
  have 1: "0 < ?x" using n by (simp add: c_0_025_def)
  have 2: "?x < 2 ^ 53" using n by (simp add: c_0_025_def)
  have 3: "of_int ?q \<le> ?x" using qr n by (simp add: c_0_025_def)
  have 4: "?x + ?x / 2 ^ 53 < of_int ?q + 1" using qr n by (simp add: c_0_025_def)
  from floor_b64_between [OF 1 2 3 4] float_of_int_exact [OF assms]
  show ?thesis by (simp add: fmul_def py_int_def)
qed

subsection \<open>Concrete runs and the shape of a run\<close>

lemma run_demo:
  "create_video env_demo [''bad.jpg'', ''a.jpg''] ''out.mp4'' 5 None True s_init
     = (Inr True, final_demo)"
  by code_simp

lemma run_demo_no_callback:
  "create_video env_demo [''bad.jpg'', ''a.jpg''] ''out.mp4'' 5 None False s_init
     = (Inl UnboundLocalError, final_demo_no_callback)"
  by code_simp


lemma run_no_ffprobe:
  "create_video env_no_ffprobe [''a.jpg''] ''out.mp4'' 5 None True s_init
     = (Inl FileNotFoundError, final_no_ffprobe)"
  by code_simp



lemma start_run_props:
  "dirs (start_run e ps s) = insert (mkdtemp e) (dirs s)"
  "trace (start_run e ps s) = trace s"
  "calls (start_run e ps s) = calls s"
  "log (start_run e ps s) = log s @ [ProcessingImages (length ps)]"
  by (simp_all add: start_run_def say_def)

lemma create_video_cases:
  assumes "create_video e ps out d music cb s = (r, s')"
  obtains
    (loop_raised) x where "image_loop e cb (mkdtemp e) (length ps) 0 ps [] (start_run e ps s) = (Inl x, s')"
      "r = Inl x"
  | (no_frame) s1 where "image_loop e cb (mkdtemp e) (length ps) 0 ps [] (start_run e ps s) = (Inr [], s1)"
      "r = Inr False" "s' = rmtree (mkdtemp e) (say NoValidImages s1)"
  | (assembled) frames s1 where
      "image_loop e cb (mkdtemp e) (length ps) 0 ps [] (start_run e ps s) = (Inr frames, s1)"
      "frames \<noteq> []" "assemble e cb (mkdtemp e) out d music frames s1 = (r, s')"
proof -
  obtain r1 s1 where l: "image_loop e cb (mkdtemp e) (length ps) 0 ps [] (start_run e ps s) = (r1, s1)"
    by force
  show thesis
  proof (cases r1)
    case (Inl x)
    with assms l have "r = Inl x" "s' = s1" by (simp_all add: create_video_def)
    with l Inl loop_raised show thesis by simp
  next
    case (Inr frames)
    show thesis
    proof (cases "frames = []")
      case True
      with assms l Inr have "r = Inr False" "s' = rmtree (mkdtemp e) (say NoValidImages s1)"
        by (simp_all add: create_video_def)
      with l Inr True no_frame show thesis by simp
    next
      case False
      with assms l Inr have "assemble e cb (mkdtemp e) out d music frames s1 = (r, s')"
        by (simp add: create_video_def)
      with l Inr False assembled show thesis by simp
    qed
  qed
qed

lemma is_compiling_poll_call [simp]: "is_compiling (poll_call b)" "\<not> is_processing (poll_call b)"
  by (simp_all add: is_compiling_def is_processing_def poll_call_def)

lemma filter_processing_poll_calls [simp]: "filter is_processing (map poll_call polls) = []"
  by (induction polls) simp_all


lemma create_video_True_needs_callback:
  assumes "create_video e image_paths output_video duration music cb s = (Inr True, s')"
  shows "cb"
  using assms
proof (cases rule: create_video_cases)
  case (assembled frames s1)
  from assemble_cases [OF assembled(3)] show ?thesis by auto
qed simp_all













subsection \<open>The claims\<close>



text \<open>
  C3 as stated fails: with the probe binary missing \<open>process_image\<close> raises
  \<open>FileNotFoundError\<close>, \<open>create_video\<close> has no handler for it, and the scratch directory
  is still there when the run ends.
\<close>

theorem C3_counterexample:
  "create_video env_no_ffprobe [''a.jpg''] ''out.mp4'' 5 None True s_init
     = (Inl FileNotFoundError, final_no_ffprobe)
   \<and> mkdtemp env_no_ffprobe \<in> dirs final_no_ffprobe"
  using run_no_ffprobe by (simp add: final_no_ffprobe_def env_no_ffprobe_def)

text \<open>
  C3 amended: the scratch directory is gone at the end of a run exactly when the run
  returns a boolean or has started the mux command (whose own exceptions are caught);
  a run ended by an exception before the mux leaves the directory in place.
\<close>

theorem C3_scratch_removed_iff:
  assumes "create_video e image_paths output_video duration music cb s = (r, s')"
  shows "(mkdtemp e \<notin> dirs s')
         = ((\<exists>b. r = Inr b) \<or> filter is_mux (trace s') \<noteq> filter is_mux (trace s))"
  using assms
proof (cases rule: create_video_cases)
  case (loop_raised x)
  from image_loop_frame [OF loop_raised(1)] loop_raised(2) show ?thesis
    by (simp add: start_run_props)
next
  case (no_frame s1)
  then show ?thesis by (auto simp: rmtree_def)
next
  case (assembled frames s1)
  note f = image_loop_frame [OF assembled(1)]
  from assemble_cases [OF assembled(3)] show ?thesis
  proof (elim disjE exE conjE)
    fix x assume "r = Inl x" "quiet s1 s'"
    with f show ?thesis by (simp add: quiet_def start_run_props)
  next
    fix cmd polls
    assume "dirs s' = dirs s1 - {mkdtemp e}"
      "filter is_mux (trace s') = filter is_mux (trace s1) @ [Ffmpeg_mux cmd]"
    with f show ?thesis by (simp add: start_run_props)
  qed
qed

text \<open>C3 amended, at a successful run of two images.\<close>

theorem C3_scratch_removed_iff_witness:
  "create_video env_demo [''bad.jpg'', ''a.jpg''] ''out.mp4'' 5 None True s_init
     = (Inr True, final_demo)
   \<and> (mkdtemp env_demo \<notin> dirs final_demo)
       = ((\<exists>b. (Inr True :: exn + bool) = Inr b)
          \<or> filter is_mux (trace final_demo) \<noteq> filter is_mux (trace s_init))"
  using C3_scratch_removed_iff [OF run_demo] run_demo by simp

text \<open>
  C1 (the code falls short of the claim): one of two images composes, the mux exits with
  code 0 and no callback is supplied.  The run prints the total duration 1 times 5 and
  the frame count 1, and then raises \<open>UnboundLocalError\<close> at its last statement instead of
  returning \<open>True\<close>.
\<close>

theorem C1_partial_success_raises_without_callback:
  "create_video env_demo [''bad.jpg'', ''a.jpg''] ''out.mp4'' 5 None False s_init
     = (Inl UnboundLocalError, final_demo_no_callback)
   \<and> VideoDuration 5 \<in> set (log final_demo_no_callback)
   \<and> NumberOfImages 1 \<in> set (log final_demo_no_callback)"
  using run_demo_no_callback by (simp add: final_demo_no_callback_def log_demo_def)

text \<open>
  C5 as stated fails: for the width 1080 the source computes \<open>int(1080 * 9 / 16)\<close>,
  which truncates 607.5 to 607, where rounding gives 608.
\<close>

theorem C5_counterexample:
  "bg_height (frame_geometry 1080) = 607 \<and> round (1080 * 9 / 16 :: rat) = 608"
  by code_simp

text \<open>
  C5 amended: for a probed width \<open>w\<close> with \<open>0 \<le> w < 2 ^ 31\<close> the geometry is
  \<open>backgroundWidth = w\<close>, \<open>backgroundHeight = floor(w * 9 / 16)\<close>,
  \<open>infoHeight = floor(backgroundHeight / 5)\<close>, \<open>totalHeight\<close> their sum and
  \<open>fontSize = max(40, floor(totalHeight / 40))\<close>: the float products by 0.2 and 0.025
  are truncated, not rounded, and in this range binary64 rounding never changes the
  truncated value.
\<close>

theorem C5_frame_geometry_truncates:
  assumes "0 \<le> w" "w < 2 ^ 31"
  shows "frame_geometry w =
           \<lparr> bg_width = w,
             bg_height = w * 9 div 16,
             info_height = w * 9 div 16 div 5,
             total_height = w * 9 div 16 + w * 9 div 16 div 5,
             font_size = max 40 ((w * 9 div 16 + w * 9 div 16 div 5) div 40) \<rparr>"
proof -
  let ?bg = "w * 9 div 16"
  let ?info = "?bg div 5"
  have w9: "0 \<le> w * 9" "w * 9 < 2 ^ 40" using assms by simp_all
  have bg: "0 \<le> ?bg" "?bg < 2 ^ 40" using assms by simp_all
  have tot: "0 \<le> ?bg + ?info" "?bg + ?info < 2 ^ 40" using assms by simp_all
  show ?thesis
    by (simp add: frame_geometry_def Let_def truediv_16_floor [OF w9]
        times_0_2_floor [OF bg] times_0_025_floor [OF tot])
qed

text \<open>C5 amended, at the width 1080.\<close>

theorem C5_frame_geometry_truncates_witness:
  "(0::int) \<le> 1080 \<and> (1080::int) < 2 ^ 31
   \<and> frame_geometry 1080 =
       \<lparr> bg_width = 1080, bg_height = 607, info_height = 121, total_height = 728,
         font_size = 40 \<rparr>"
  using C5_frame_geometry_truncates [of 1080] by simp














text \<open>
  C10 (the code falls short of the claim): a run without progress callback whose mux
  succeeds does not return \<open>True\<close>: the last statement of \<open>create_video\<close> evaluates the
  unbound variable \<open>progress\<close> and raises \<open>UnboundLocalError\<close>, after the scratch
  directory has been removed.
\<close>

theorem C10_no_callback_raises:
  "fst (create_video env_silent_mux [''a.jpg''] ''out.mp4'' 5 None False s_init)
     = Inl UnboundLocalError"
  by code_simp

end
